theory Spec2Isabelle
  imports Main "HOL-Library.Word" "HOL-Library.AList"
begin

section \<open>JavaScript strings\<close>

text \<open>
  A JavaScript string is a sequence of UTF-16 code units. The action's string
  operations (\<^verbatim>\<open>split\<close>, \<^verbatim>\<open>trim\<close>, \<^verbatim>\<open>startsWith\<close>, the regular expression without the
  \<^verbatim>\<open>u\<close> flag, template literals) all work on code units, so a string is modelled as a
  list of 16-bit words. \<open>js\<close> embeds an ASCII literal.
\<close>

type_synonym code_unit = "16 word"
type_synonym jsstring = "code_unit list"

definition cu :: "char \<Rightarrow> code_unit" where
  "cu c = of_nat (of_char c)"

definition js :: "string \<Rightarrow> jsstring" where
  "js s = map cu s"

definition LF :: code_unit where
  "LF = 0x0A"

text \<open>
  \<^verbatim>\<open>String.prototype.trim\<close> removes WhiteSpace and LineTerminator code points from both
  ends: TAB, VT, FF, SP, NBSP, ZWNBSP (U+FEFF), the Unicode space separators
  (U+1680, U+2000..U+200A, U+202F, U+205F, U+3000), and LF, CR, LS (U+2028), PS (U+2029).
\<close>

definition is_line_terminator :: "code_unit \<Rightarrow> bool" where
  "is_line_terminator c = (c = 0x0A \<or> c = 0x0D \<or> c = 0x2028 \<or> c = 0x2029)"

definition is_white_space :: "code_unit \<Rightarrow> bool" where
  "is_white_space c =
     (c = 0x09 \<or> c = 0x0B \<or> c = 0x0C \<or> c = 0x20 \<or> c = 0xA0 \<or> c = 0xFEFF \<or>
      c = 0x1680 \<or> (0x2000 \<le> c \<and> c \<le> 0x200A) \<or> c = 0x202F \<or> c = 0x205F \<or>
      c = 0x3000 \<or> is_line_terminator c)"

definition trim :: "jsstring \<Rightarrow> jsstring" where
  "trim s = rev (dropWhile is_white_space (rev (dropWhile is_white_space s)))"

text \<open>\<^verbatim>\<open>s.startsWith(p)\<close>: the string begins with the code units of \<open>p\<close>.\<close>

definition startsWith :: "jsstring \<Rightarrow> jsstring \<Rightarrow> bool" where
  "startsWith s p = (take (length p) s = p)"

text \<open>
  \<^verbatim>\<open>s.split(sep)\<close> for a one-character separator: the pieces between the occurrences of
  the separator, in order; a string without the separator (also the empty string) is one
  piece.
\<close>

function split_js :: "jsstring \<Rightarrow> code_unit \<Rightarrow> jsstring list" where
  "split_js s sep =
     (case dropWhile (\<lambda>c. c \<noteq> sep) s of
        [] \<Rightarrow> [takeWhile (\<lambda>c. c \<noteq> sep) s]
      | _ # rest \<Rightarrow> takeWhile (\<lambda>c. c \<noteq> sep) s # split_js rest sep)"
  by pat_completeness auto
termination
proof (relation "measure (\<lambda>(s, sep). length s)")
  show "wf (measure (\<lambda>(s, sep). length s))"
    by simp
next
  fix s :: jsstring and sep x rest
  assume "dropWhile (\<lambda>c. c \<noteq> sep) s = x # rest"
  then have "Suc (length rest) = length (dropWhile (\<lambda>c. c \<noteq> sep) s)"
    by simp
  also have "\<dots> \<le> length s"
    by (rule length_dropWhile_le)
  finally show "((rest, sep), (s, sep)) \<in> measure (\<lambda>(s, sep). length s)"
    by simp
qed

declare split_js.simps [simp del]

text \<open>
  Conversion of a number to its decimal text, as a template literal does for an integer
  value (\<^verbatim>\<open>`${res.statusCode}`\<close>, \<^verbatim>\<open>`${exitCode}`\<close>, \<^verbatim>\<open>`${count}`\<close>).
\<close>

fun nat_to_string :: "nat \<Rightarrow> jsstring" where
  "nat_to_string n =
     (if n < 10 then [0x30 + of_nat n]
      else nat_to_string (n div 10) @ [0x30 + of_nat (n mod 10)])"

declare nat_to_string.simps [simp del]

definition int_to_string :: "int \<Rightarrow> jsstring" where
  "int_to_string i = (if i < 0 then js ''-'' @ nat_to_string (nat (- i)) else nat_to_string (nat i))"

section \<open>The output parser\<close>

text \<open>
  The regular expression \<^verbatim>\<open>/^([A-Za-z_][A-Za-z0-9_]*)=(.*)$/\<close> applied to a whole string
  (no \<^verbatim>\<open>m\<close> flag, so \<^verbatim>\<open>^\<close> and \<^verbatim>\<open>$\<close> are the ends of the string; no \<^verbatim>\<open>s\<close> flag, so
  \<^verbatim>\<open>.\<close> matches every code unit but a line terminator). The character \<^verbatim>\<open>=\<close> is not in
  the class \<^verbatim>\<open>[A-Za-z0-9_]\<close>, so the greedy first group can only end at the longest run of
  identifier characters: backtracking to a shorter run leaves an identifier character
  where \<^verbatim>\<open>=\<close> is required. The result is the pair of the two groups.
\<close>

definition is_ident_start :: "code_unit \<Rightarrow> bool" where
  "is_ident_start c = ((0x41 \<le> c \<and> c \<le> 0x5A) \<or> (0x61 \<le> c \<and> c \<le> 0x7A) \<or> c = 0x5F)"

definition is_ident_char :: "code_unit \<Rightarrow> bool" where
  "is_ident_char c = (is_ident_start c \<or> (0x30 \<le> c \<and> c \<le> 0x39))"

definition no_line_terminator :: "jsstring \<Rightarrow> bool" where
  "no_line_terminator s = (filter is_line_terminator s = [])"

fun regex_match :: "jsstring \<Rightarrow> (jsstring \<times> jsstring) option" where
  "regex_match [] = None"
| "regex_match (c # cs) =
     (if is_ident_start c then
        (case dropWhile is_ident_char cs of
           [] \<Rightarrow> None
         | d # rest \<Rightarrow>
             if d = 0x3D \<and> no_line_terminator rest
             then Some (c # takeWhile is_ident_char cs, rest)
             else None)
      else None)"

text \<open>The strings the first group of the expression can match: the identifiers.\<close>

fun is_identifier :: "jsstring \<Rightarrow> bool" where
  "is_identifier [] = False"
| "is_identifier (c # cs) = (is_ident_start c \<and> list_all is_ident_char cs)"

text \<open>
  \<^verbatim>\<open>envVars\<close> is an ordinary object created by \<^verbatim>\<open>{}\<close>; what the caller reads from it are
  its own enumerable string-keyed properties, in insertion order (the keys stored here
  never are array indices): an association list. An assignment \<^verbatim>\<open>envVars[key] = value\<close>
  replaces the value of an existing property in place and appends a new property
  otherwise, with one exception: \<^verbatim>\<open>__proto__\<close> is an accessor inherited from
  \<^verbatim>\<open>Object.prototype\<close>, and its setter ignores a value that is neither an object nor
  null, so assigning a string to it creates no property.
\<close>

type_synonym js_object = "(jsstring \<times> jsstring) list"

definition set_property :: "js_object \<Rightarrow> jsstring \<Rightarrow> jsstring \<Rightarrow> js_object" where
  "set_property obj key val =
     (if key = js ''__proto__'' then obj else AList.update key val obj)"

text \<open>The body of the loop over the lines, and \<^verbatim>\<open>parseEnvOutput\<close> itself.\<close>

definition parse_line :: "js_object \<Rightarrow> jsstring \<Rightarrow> js_object" where
  "parse_line envVars line =
     (let trimmed = trim line in
      if trimmed = [] \<or> startsWith trimmed (js ''#'') then envVars
      else (case regex_match trimmed of
              Some (key, val) \<Rightarrow> set_property envVars key val
            | None \<Rightarrow> envVars))"

definition parseEnvOutput :: "jsstring \<Rightarrow> js_object" where
  "parseEnvOutput output = foldl parse_line [] (split_js output LF)"

text \<open>
  An \<^verbatim>\<open>EnvVarMap\<close>: no key twice, every key an identifier, no line terminator in a value.
\<close>

definition well_formed :: "js_object \<Rightarrow> bool" where
  "well_formed obj =
     (distinct (map fst obj) \<and>
      list_all (\<lambda>(key, val). is_identifier key \<and> key \<noteq> js ''__proto__'' \<and> no_line_terminator val) obj)"

section \<open>The world outside the action\<close>

text \<open>
  Everything the action reads from its host and every answer the host gives to a call is
  a field of \<open>world\<close>. What the action does to the host is the list of calls it makes,
  in order (\<open>event\<close>); a call that is answered by an error is in the list as well. The
  logging and export calls of the CI toolkit (\<^verbatim>\<open>info\<close>, \<^verbatim>\<open>warning\<close>, \<^verbatim>\<open>error\<close>,
  \<^verbatim>\<open>setFailed\<close>, \<^verbatim>\<open>addPath\<close>, \<^verbatim>\<open>exportVariable\<close>) are taken to return normally.
\<close>

datatype js_error = Error (message: jsstring)

datatype protocol = Https | Http

datatype get_result =
    GetError js_error
  | Response (statusCode: nat) (location: "jsstring option") (body: jsstring)

datatype exec_result =
    ExecRejected js_error
  | ExecExit int jsstring jsstring

datatype event =
    Info jsstring
  | Warning jsstring
  | LogError jsstring
  | SetFailed jsstring
  | AddPath jsstring
  | ExportVariable jsstring jsstring
  | HttpGet protocol jsstring
  | WriteStream jsstring jsstring
  | Unlink jsstring
  | Exec jsstring "jsstring list"
  | WriteFile jsstring jsstring

record world =
  input :: "jsstring \<Rightarrow> jsstring"
  platform :: jsstring
  arch :: jsstring
  cwd :: jsstring
  path_join :: "jsstring \<Rightarrow> jsstring \<Rightarrow> jsstring"
  http_get :: "protocol \<Rightarrow> jsstring \<Rightarrow> get_result"
  write_stream :: "jsstring \<Rightarrow> jsstring \<Rightarrow> js_error option"
  unlinkSync :: "jsstring \<Rightarrow> js_error option"
  writeFileSync :: "jsstring \<Rightarrow> jsstring \<Rightarrow> js_error option"
  exec :: "jsstring \<Rightarrow> jsstring list \<Rightarrow> exec_result"

text \<open>
  \<^verbatim>\<open>core.getInput(name, {required})\<close> of the toolkit: \<open>input w name\<close> is the raw value
  of the input, empty when the workflow gives none. A required input that is empty
  raises; otherwise the value is returned with surrounding whitespace removed.
\<close>

definition getInput :: "world \<Rightarrow> jsstring \<Rightarrow> bool \<Rightarrow> js_error + jsstring" where
  "getInput w name required =
     (let val = input w name in
      if required \<and> val = [] then Inl (Error (js ''Input required and not supplied: '' @ name))
      else Inr (trim val))"

section \<open>Downloading the archive\<close>

text \<open>
  \<^verbatim>\<open>downloadFile(url, destPath)\<close> returns a promise; the model returns the calls made and
  how the promise settles (\<open>Inr ()\<close> resolved, \<open>Inl e\<close> rejected with \<open>e\<close>), or
  \<open>None\<close> when it never settles because the redirects never end. The URL is
  \<open>None\<close> when the caller passes \<^verbatim>\<open>undefined\<close> (a redirect without a
  \<^verbatim>\<open>Location\<close> header): \<^verbatim>\<open>url.startsWith\<close> then throws inside the promise executor,
  which rejects the promise.
\<close>

definition undefined_url_message :: jsstring where
  "undefined_url_message = js ''Cannot read properties of undefined (reading 'startsWith')''"

definition is_redirect :: "nat \<Rightarrow> bool" where
  "is_redirect status = (status = 301 \<or> status = 302 \<or> status = 307 \<or> status = 308)"

definition protocol_of :: "jsstring \<Rightarrow> protocol" where
  "protocol_of url = (if startsWith url (js ''https'') then Https else Http)"

definition status_message :: "nat \<Rightarrow> jsstring" where
  "status_message status = js ''Download failed with status '' @ nat_to_string status"

partial_function (option) downloadFile ::
  "world \<Rightarrow> jsstring option \<Rightarrow> jsstring \<Rightarrow> (event list \<times> (js_error + unit)) option" where
  "downloadFile w url destPath =
     (case url of
        None \<Rightarrow> Some ([], Inl (Error undefined_url_message))
      | Some u \<Rightarrow>
          (case http_get w (protocol_of u) u of
             GetError e \<Rightarrow> Some ([HttpGet (protocol_of u) u], Inl e)
           | Response status loc content \<Rightarrow>
               if is_redirect status then
                 Option.bind (downloadFile w loc destPath)
                   (\<lambda>(calls, settled). Some (HttpGet (protocol_of u) u # calls, settled))
               else if status \<noteq> 200 then
                 Some ([HttpGet (protocol_of u) u], Inl (Error (status_message status)))
               else
                 (case write_stream w destPath content of
                    None \<Rightarrow>
                      Some ([HttpGet (protocol_of u) u, WriteStream destPath content], Inr ())
                  | Some e \<Rightarrow>
                      Some ([HttpGet (protocol_of u) u, WriteStream destPath content,
                             Unlink destPath], Inl e))))"

declare downloadFile.simps [code]

text \<open>
  \<open>redirect_chain w u us\<close>: the host answers the request for \<open>u\<close> with a redirect to the
  first URL of \<open>us\<close>, the request for that one with a redirect to the next, and so on to
  the last URL of \<open>us\<close>.
\<close>

fun redirect_chain :: "world \<Rightarrow> jsstring \<Rightarrow> jsstring list \<Rightarrow> bool" where
  "redirect_chain w u [] = True"
| "redirect_chain w u (u' # us) =
     (case http_get w (protocol_of u) u of
        GetError e \<Rightarrow> False
      | Response status loc content \<Rightarrow>
          is_redirect status \<and> loc = Some u' \<and> redirect_chain w u' us)"

text \<open>The number a decimal text denotes.\<close>

definition decimal_value :: "jsstring \<Rightarrow> nat" where
  "decimal_value s = foldl (\<lambda>a c. 10 * a + (unat c - 48)) 0 s"

section \<open>The run\<close>

text \<open>
  The values \<^verbatim>\<open>run\<close> computes before it downloads (\<^verbatim>\<open>index.js\<close>, lines 48 to 64): the
  architecture label, the platform string, the version with its \<^verbatim>\<open>v\<close> (the expression
  the tests name \<^verbatim>\<open>normalizeVersion\<close>) and the download URL.
\<close>

definition normalizeVersion :: "jsstring \<Rightarrow> jsstring" where
  "normalizeVersion version = (if startsWith version (js ''v'') then version else js ''v'' @ version)"

definition architecture :: "jsstring \<Rightarrow> jsstring" where
  "architecture a =
     (if a = js ''x64'' then js ''amd64'' else if a = js ''arm64'' then js ''arm64'' else a)"

definition platformString :: "jsstring \<Rightarrow> jsstring \<Rightarrow> jsstring" where
  "platformString p a =
     (if p = js ''darwin'' then js ''Darwin'' else js ''Linux'') @ js ''_'' @ architecture a"

definition downloadUrl_for :: "jsstring \<Rightarrow> jsstring \<Rightarrow> jsstring \<Rightarrow> jsstring" where
  "downloadUrl_for version p a =
     js ''https://github.com/dirathea/sstart/releases/download/'' @ normalizeVersion version @
     js ''/sstart_'' @ platformString p a @ js ''.tar.gz''"

definition unsupported_message :: "jsstring \<Rightarrow> jsstring" where
  "unsupported_message p =
     js ''Unsupported platform: '' @ p @ js ''. Only darwin and linux are supported.''"

definition versionInput :: "world \<Rightarrow> jsstring" where
  "versionInput w =
     (case getInput w (js ''version'') False of
        Inr v \<Rightarrow> if v = [] then js ''0.0.2'' else v
      | Inl e \<Rightarrow> js ''0.0.2'')"

definition downloadUrl :: "world \<Rightarrow> jsstring" where
  "downloadUrl w = downloadUrl_for (versionInput w) (platform w) (arch w)"

definition archivePath :: "world \<Rightarrow> jsstring" where
  "archivePath w =
     path_join w (cwd w) (js ''sstart_'' @ platformString (platform w) (arch w) @ js ''.tar.gz'')"

definition binaryPath :: "world \<Rightarrow> jsstring" where
  "binaryPath w = path_join w (cwd w) (js ''sstart'')"

definition configPath :: "world \<Rightarrow> jsstring" where
  "configPath w = path_join w (cwd w) (js ''.sstart.yml'')"

text \<open>What \<^verbatim>\<open>run\<close> does with the captured output of \<^verbatim>\<open>sstart env\<close> once it exited with 0.\<close>

definition export_output :: "jsstring \<Rightarrow> event list" where
  "export_output output =
     (if trim output = [] then [Warning (js ''sstart env produced no output'')]
      else
        (let envVars = parseEnvOutput output in
         Info (js ''Parsing environment variables from sstart env output...'') #
         map (\<lambda>(key, val). ExportVariable key val) envVars @
         [Info (js ''Successfully set '' @ nat_to_string (length envVars) @
                js '' environment variable(s)'')]))"

text \<open>The part of \<^verbatim>\<open>run\<close> after the archive is on disk.\<close>

definition run_installed :: "world \<Rightarrow> jsstring \<Rightarrow> event list" where
  "run_installed w config =
     Info (js ''Extracting archive...'') #
     Exec (js ''tar'') [js ''-xzf'', archivePath w, js ''-C'', cwd w] #
     (case exec w (js ''tar'') [js ''-xzf'', archivePath w, js ''-C'', cwd w] of
        ExecRejected e \<Rightarrow> [SetFailed (js ''Could not extract sstart binary: '' @ message e)]
      | ExecExit tarCode tarOut tarErr \<Rightarrow>
          Unlink (archivePath w) #
          (case unlinkSync w (archivePath w) of
             Some e \<Rightarrow> [SetFailed (js ''Could not extract sstart binary: '' @ message e)]
           | None \<Rightarrow>
               Exec (js ''chmod'') [js ''+x'', binaryPath w] #
               (case exec w (js ''chmod'') [js ''+x'', binaryPath w] of
                  ExecRejected e \<Rightarrow> [SetFailed (message e)]
                | ExecExit chmodCode chmodOut chmodErr \<Rightarrow>
                    AddPath (cwd w) #
                    Info (js ''Added '' @ cwd w @ js '' to PATH'') #
                    WriteFile (configPath w) config #
                    (case writeFileSync w (configPath w) config of
                       Some e \<Rightarrow> [SetFailed (message e)]
                     | None \<Rightarrow>
                         Info (js ''Created .sstart.yml configuration file'') #
                         Info (js ''Running sstart env...'') #
                         Exec (binaryPath w) [js ''env''] #
                         (case exec w (binaryPath w) [js ''env''] of
                            ExecRejected e \<Rightarrow> [SetFailed (message e)]
                          | ExecExit exitCode output errorOutput \<Rightarrow>
                              if exitCode \<noteq> 0 then
                                SetFailed (js ''sstart env exited with code '' @ int_to_string exitCode) #
                                (if errorOutput \<noteq> []
                                 then [LogError (js ''Error output: '' @ errorOutput)] else [])
                              else export_output output)))))"

text \<open>
  \<^verbatim>\<open>run\<close>: the calls it makes, in order; \<open>None\<close> when the download never settles. Every
  exception inside the body reaches the outer \<^verbatim>\<open>catch\<close>, which calls \<^verbatim>\<open>setFailed\<close> with
  its message.
\<close>

definition run :: "world \<Rightarrow> event list option" where
  "run w =
     (case getInput w (js ''config'') True of
        Inl e \<Rightarrow> Some [SetFailed (message e)]
      | Inr config \<Rightarrow>
          (case getInput w (js ''version'') False of
             Inl e \<Rightarrow> Some [SetFailed (message e)]
           | Inr v \<Rightarrow>
               if platform w \<noteq> js ''darwin'' \<and> platform w \<noteq> js ''linux''
               then Some [SetFailed (unsupported_message (platform w))]
               else
                 Option.bind (downloadFile w (Some (downloadUrl w)) (archivePath w))
                   (\<lambda>(calls, settled).
                      Some
                        ([Info (js ''Detected platform: '' @ platformString (platform w) (arch w)),
                          Info (js ''Downloading sstart '' @ normalizeVersion (versionInput w) @
                                js '' from: '' @ downloadUrl w)] @
                         calls @
                         (case settled of
                            Inl e \<Rightarrow>
                              [SetFailed (js ''Could not download sstart binary: '' @ message e)]
                          | Inr u \<Rightarrow> run_installed w config)))))"

text \<open>What a list of calls shows to the workflow: failures, exported variables, warnings.\<close>

fun failure_of :: "event \<Rightarrow> jsstring option" where
  "failure_of (SetFailed m) = Some m"
| "failure_of e = None"

fun export_of :: "event \<Rightarrow> (jsstring \<times> jsstring) option" where
  "export_of (ExportVariable key val) = Some (key, val)"
| "export_of e = None"

fun warning_of :: "event \<Rightarrow> jsstring option" where
  "warning_of (Warning m) = Some m"
| "warning_of e = None"

definition failures :: "event list \<Rightarrow> jsstring list" where
  "failures calls = List.map_filter failure_of calls"

definition exported :: "event list \<Rightarrow> (jsstring \<times> jsstring) list" where
  "exported calls = List.map_filter export_of calls"

definition warnings :: "event list \<Rightarrow> jsstring list" where
  "warnings calls = List.map_filter warning_of calls"

fun is_download_call :: "event \<Rightarrow> bool" where
  "is_download_call (HttpGet p u) = True"
| "is_download_call (WriteStream d b) = True"
| "is_download_call (Unlink d) = True"
| "is_download_call e = False"

text \<open>
  \<open>sstart_env_prints w output\<close>: in the world \<open>w\<close> every step of \<^verbatim>\<open>run\<close> before the
  output is looked at succeeds (the \<^verbatim>\<open>config\<close> input is there, the platform is supported,
  the download resolves, \<^verbatim>\<open>tar\<close>, the removal of the archive, \<^verbatim>\<open>chmod\<close> and the write of
  the configuration file work), and \<^verbatim>\<open>sstart env\<close> exits with code 0 after printing
  \<open>output\<close>.
\<close>

definition sstart_env_prints :: "world \<Rightarrow> jsstring \<Rightarrow> bool" where
  "sstart_env_prints w output =
     (input w (js ''config'') \<noteq> [] \<and>
      (platform w = js ''darwin'' \<or> platform w = js ''linux'') \<and>
      (case downloadFile w (Some (downloadUrl w)) (archivePath w) of
         Some (calls, Inr u) \<Rightarrow> True
       | Some (calls, Inl e) \<Rightarrow> False
       | None \<Rightarrow> False) \<and>
      (case exec w (js ''tar'') [js ''-xzf'', archivePath w, js ''-C'', cwd w] of
         ExecExit tarCode tarOut tarErr \<Rightarrow> True
       | ExecRejected e \<Rightarrow> False) \<and>
      unlinkSync w (archivePath w) = None \<and>
      (case exec w (js ''chmod'') [js ''+x'', binaryPath w] of
         ExecExit chmodCode chmodOut chmodErr \<Rightarrow> True
       | ExecRejected e \<Rightarrow> False) \<and>
      writeFileSync w (configPath w) (trim (input w (js ''config''))) = None \<and>
      (case exec w (binaryPath w) [js ''env''] of
         ExecExit exitCode out errorOutput \<Rightarrow> exitCode = 0 \<and> out = output
       | ExecRejected e \<Rightarrow> False))"

section \<open>An example world\<close>

text \<open>
  A Linux x64 runner: the release host redirects the archive request to an object store,
  which redirects to a mirror, which serves the archive; every file operation and
  subprocess works; \<^verbatim>\<open>sstart env\<close> prints two variables.
\<close>

definition runner :: world where
  "runner =
     \<lparr> input = (\<lambda>name. if name = js ''config'' then js ''providers: []'' else []),
       platform = js ''linux'',
       arch = js ''x64'',
       cwd = js ''/work'',
       path_join = (\<lambda>dir name. dir @ js ''/'' @ name),
       http_get = (\<lambda>p url.
         if url = js ''https://github.com/dirathea/sstart/releases/download/v0.0.2/sstart_Linux_amd64.tar.gz''
         then Response 302 (Some (js ''https://objects.example/a'')) (js ''Found'')
         else if url = js ''https://objects.example/a''
         then Response 307 (Some (js ''http://mirror.example/b'')) (js ''Temporary Redirect'')
         else if url = js ''http://mirror.example/b''
         then Response 200 None (js ''ARCHIVE'')
         else GetError (Error (js ''getaddrinfo ENOTFOUND''))),
       write_stream = (\<lambda>path content. None),
       unlinkSync = (\<lambda>path. None),
       writeFileSync = (\<lambda>path content. None),
       exec = (\<lambda>cmd args.
         if args = [js ''env''] then ExecExit 0 (js ''API_KEY=abc\<newline>DB_URL=pg://h/db?x=1\<newline>'') []
         else ExecExit 0 [] []) \<rparr>"

section \<open>Facts about the string operations\<close>

lemma equals_not_ident_char: "\<not> is_ident_char 0x3D"
  by (simp add: is_ident_char_def is_ident_start_def)

lemma js_Cons: "js (c # s) = cu c # js s"
  by (simp add: js_def)

lemma js_equals: "js ''='' = [0x3D]"
  by (simp add: js_def cu_def)

lemma regex_match_iff:
  "regex_match s = Some (k, v) \<longleftrightarrow>
     is_identifier k \<and> no_line_terminator v \<and> s = k @ js ''='' @ v"
proof
  assume m: "regex_match s = Some (k, v)"
  then obtain c cs where s: "s = c # cs"
    by (cases s) auto
  from m s have c: "is_ident_start c"
    by (auto split: if_splits)
  from m s c obtain d rest where d: "dropWhile is_ident_char cs = d # rest"
    by (cases "dropWhile is_ident_char cs") auto
  from m s c d have *: "d = 0x3D" "no_line_terminator rest"
      "k = c # takeWhile is_ident_char cs" "v = rest"
    by (auto split: if_splits)
  have "cs = takeWhile is_ident_char cs @ dropWhile is_ident_char cs"
    by simp
  with d * s have "s = k @ js ''='' @ v"
    by (simp add: js_equals)
  moreover have "is_identifier k"
    using c * by (simp add: list_all_iff) (meson set_takeWhileD)
  ultimately show "is_identifier k \<and> no_line_terminator v \<and> s = k @ js ''='' @ v"
    using * by simp
next
  assume a: "is_identifier k \<and> no_line_terminator v \<and> s = k @ js ''='' @ v"
  then obtain c cs where k: "k = c # cs"
    by (cases k) auto
  with a have c: "is_ident_start c" and cs: "\<And>x. x \<in> set cs \<Longrightarrow> is_ident_char x"
    by (auto simp: list_all_iff)
  have t: "takeWhile is_ident_char (cs @ 0x3D # v) = cs"
    using cs by (simp add: takeWhile_append2 equals_not_ident_char)
  have d: "dropWhile is_ident_char (cs @ 0x3D # v) = 0x3D # v"
    using cs by (simp add: dropWhile_append2 equals_not_ident_char)
  from a k have "s = c # (cs @ 0x3D # v)"
    by (simp add: js_equals)
  then show "regex_match s = Some (k, v)"
    using a c k t d by simp
qed

lemma trim_empty_iff: "trim s = [] \<longleftrightarrow> list_all is_white_space s"
proof
  assume "list_all is_white_space s"
  then have "dropWhile is_white_space s = []"
    by (simp add: list_all_iff)
  then show "trim s = []"
    by (simp only: trim_def rev.simps dropWhile.simps)
next
  assume "trim s = []"
  then have all: "\<forall>x \<in> set (dropWhile is_white_space s). is_white_space x"
    by (simp add: trim_def)
  have "dropWhile is_white_space s = []"
  proof (rule ccontr)
    assume ne: "dropWhile is_white_space s \<noteq> []"
    then have "\<not> is_white_space (hd (dropWhile is_white_space s))"
      by (rule hd_dropWhile)
    moreover from ne have "hd (dropWhile is_white_space s) \<in> set (dropWhile is_white_space s)"
      by simp
    ultimately show False
      using all by blast
  qed
  then show "list_all is_white_space s"
    by (simp add: list_all_iff)
qed

lemma trim_blank: "list_all is_white_space s \<Longrightarrow> trim s = []"
  by (simp add: trim_empty_iff)

lemma hash_not_white_space: "\<not> is_white_space 0x23"
  by (simp add: is_white_space_def is_line_terminator_def)

lemma js_hash: "js ''#'' = [0x23]"
  by (simp add: js_def cu_def)

lemma startsWith_hash: "startsWith s (js ''#'') \<longleftrightarrow> (\<exists>r. s = 0x23 # r)"
  by (cases s) (auto simp: startsWith_def js_hash)

lemma trim_keeps_first:
  assumes "\<not> is_white_space x"
  shows "\<exists>r. trim (x # xs) = x # r"
proof (cases "\<forall>y \<in> set (rev xs). is_white_space y")
  case True
  then have "dropWhile is_white_space (rev xs @ [x]) = [x]"
    using assms by (simp add: dropWhile_append)
  then show ?thesis
    using assms by (simp add: trim_def)
next
  case False
  then have "dropWhile is_white_space (rev xs @ [x]) = dropWhile is_white_space (rev xs) @ [x]"
    by (simp add: dropWhile_append)
  then show ?thesis
    using assms by (simp add: trim_def)
qed

lemma trim_comment: "startsWith line (js ''#'') \<Longrightarrow> startsWith (trim line) (js ''#'')"
  using trim_keeps_first [OF hash_not_white_space] by (auto simp: startsWith_hash)

lemma parse_line_skip:
  assumes "list_all is_white_space line \<or> startsWith line (js ''#'') \<or>
           \<not> (\<exists>k v. is_identifier k \<and> trim line = k @ js ''='' @ v)"
  shows "parse_line envVars line = envVars"
proof -
  from assms consider "list_all is_white_space line" | "startsWith line (js ''#'')"
    | "\<not> (\<exists>k v. is_identifier k \<and> trim line = k @ js ''='' @ v)"
    by blast
  then show ?thesis
  proof cases
    case 1
    then show ?thesis
      by (simp add: parse_line_def trim_blank)
  next
    case 2
    then show ?thesis
      by (simp add: parse_line_def trim_comment)
  next
    case 3
    have "regex_match (trim line) = None"
    proof (cases "regex_match (trim line)")
      case None
      then show ?thesis .
    next
      case (Some p)
      then have "regex_match (trim line) = Some (fst p, snd p)"
        by simp
      with 3 show ?thesis
        unfolding regex_match_iff by blast
    qed
    then show ?thesis
      by (simp add: parse_line_def Let_def)
  qed
qed

lemmas js_eval = js_def cu_def LF_def trim_def startsWith_def set_property_def
  is_white_space_def is_line_terminator_def is_ident_start_def is_ident_char_def
  no_line_terminator_def parse_line_def parseEnvOutput_def split_js.simps

section \<open>Facts about the parser\<close>

lemma map_of_set_property:
  "key \<noteq> js ''__proto__'' \<Longrightarrow> map_of (set_property obj key val) = (map_of obj)(key \<mapsto> val)"
  by (simp add: set_property_def update_conv')

lemma hash_not_ident_start: "\<not> is_ident_start 0x23"
  by (simp add: is_ident_start_def)

lemma parse_line_match:
  assumes "is_identifier k" and "no_line_terminator v" and "trim line = k @ js ''='' @ v"
  shows "parse_line envVars line = set_property envVars k v"
proof -
  from assms(1) obtain c cs where k: "k = c # cs" and c: "is_ident_start c"
    by (cases k) auto
  from c have "c \<noteq> 0x23"
    using hash_not_ident_start by auto
  with k assms(3) have "trim line \<noteq> []" "\<not> startsWith (trim line) (js ''#'')"
    by (auto simp: startsWith_hash)
  moreover have "regex_match (trim line) = Some (k, v)"
    using assms by (simp add: regex_match_iff)
  ultimately show ?thesis
    by (simp add: parse_line_def Let_def)
qed

lemma parse_line_cases:
  "parse_line envVars line = envVars \<or>
   (\<exists>k v. is_identifier k \<and> no_line_terminator v \<and> trim line = k @ js ''='' @ v \<and>
          parse_line envVars line = set_property envVars k v)"
proof (cases "regex_match (trim line)")
  case None
  then show ?thesis
    by (simp add: parse_line_def Let_def)
next
  case (Some p)
  then have "regex_match (trim line) = Some (fst p, snd p)"
    by simp
  then have "is_identifier (fst p) \<and> no_line_terminator (snd p) \<and> trim line = fst p @ js ''='' @ snd p"
    by (simp only: regex_match_iff)
  then show ?thesis
    using parse_line_match by blast
qed

lemma well_formed_set_property:
  assumes "well_formed obj" and "is_identifier k" and "no_line_terminator v"
  shows "well_formed (set_property obj k v)"
proof (cases "k = js ''__proto__''")
  case True
  with assms show ?thesis
    by (simp add: set_property_def)
next
  case False
  have "set (AList.update k v obj) \<subseteq> insert (k, v) (set obj)"
    by (induction obj) auto
  with assms False show ?thesis
    by (auto simp: well_formed_def set_property_def list_all_iff distinct_update)
qed

lemma well_formed_parse_line: "well_formed envVars \<Longrightarrow> well_formed (parse_line envVars line)"
  using parse_line_cases [of envVars line] well_formed_set_property by auto

lemma well_formed_foldl: "well_formed envVars \<Longrightarrow> well_formed (foldl parse_line envVars lines)"
  by (induction lines arbitrary: envVars) (simp_all add: well_formed_parse_line)

lemma well_formed_parseEnvOutput: "well_formed (parseEnvOutput output)"
proof -
  have "well_formed []"
    by (simp add: well_formed_def)
  then show ?thesis
    unfolding parseEnvOutput_def by (rule well_formed_foldl)
qed

lemma other_lines_keep_key:
  assumes "\<forall>l \<in> set lines. \<not> (\<exists>v'. trim l = k @ js ''='' @ v')"
  shows "map_of (foldl parse_line envVars lines) k = map_of envVars k"
  using assms
proof (induction lines arbitrary: envVars)
  case Nil
  then show ?case by simp
next
  case (Cons l ls)
  have "map_of (parse_line envVars l) k = map_of envVars k"
  proof -
    consider "parse_line envVars l = envVars"
      | k' v' where "trim l = k' @ js ''='' @ v'" "parse_line envVars l = set_property envVars k' v'"
      using parse_line_cases [of envVars l] by blast
    then show ?thesis
    proof cases
      case 1
      then show ?thesis by simp
    next
      case 2
      with Cons.prems have "k' \<noteq> k"
        by auto
      with 2 show ?thesis
        by (simp add: set_property_def update_conv')
    qed
  qed
  with Cons show ?case
    by simp
qed

lemma entries_of_key:
  "distinct (map fst obj) \<Longrightarrow> map_of obj k = Some v \<Longrightarrow> filter (\<lambda>(key, val). key = k) obj = [(k, v)]"
proof (induction obj)
  case Nil
  then show ?case by simp
next
  case (Cons p obj)
  show ?case
  proof (cases "fst p = k")
    case True
    with Cons.prems have "filter (\<lambda>(key, val). key = k) obj = []"
      by (auto simp: filter_empty_conv rev_image_eqI)
    with True Cons.prems show ?thesis
      by (cases p) auto
  next
    case False
    with Cons show ?thesis
      by (cases p) auto
  qed
qed

lemma last_occurrence_wins:
  assumes "split_js output LF = before @ line # after"
    and "is_identifier k" and "k \<noteq> js ''__proto__''" and "no_line_terminator v"
    and "trim line = k @ js ''='' @ v"
    and "\<forall>l \<in> set after. \<not> (\<exists>v'. trim l = k @ js ''='' @ v')"
  shows "filter (\<lambda>(key, val). key = k) (parseEnvOutput output) = [(k, v)]"
proof -
  let ?env = "foldl parse_line [] before"
  have "map_of (foldl parse_line (parse_line ?env line) after) k = map_of (parse_line ?env line) k"
    using assms(6) by (rule other_lines_keep_key)
  also have "\<dots> = Some v"
    using assms by (simp add: parse_line_match map_of_set_property)
  finally have "map_of (parseEnvOutput output) k = Some v"
    using assms(1) by (simp add: parseEnvOutput_def)
  moreover have "distinct (map fst (parseEnvOutput output))"
    using well_formed_parseEnvOutput by (simp add: well_formed_def)
  ultimately show ?thesis
    by (rule entries_of_key [rotated])
qed

section \<open>Facts about the download and the run\<close>

lemma downloadFile_calls_fst:
  "downloadFile w url destPath = Some y \<Longrightarrow> list_all is_download_call (fst y)"
proof (induction rule: downloadFile.raw_induct [rotated, consumes 1])
  case (1 downloadFile w url destPath y)
  then show ?case
    by (auto split: option.splits get_result.splits if_splits prod.splits simp: bind_eq_Some_conv)
qed

lemma downloadFile_calls:
  "downloadFile w url destPath = Some (calls, settled) \<Longrightarrow> list_all is_download_call calls"
  using downloadFile_calls_fst by fastforce

lemma map_filter_append: "List.map_filter f (xs @ ys) = List.map_filter f xs @ List.map_filter f ys"
  by (simp add: List.map_filter_def)

lemma map_filter_Cons:
  "List.map_filter f (x # xs) = (case f x of None \<Rightarrow> List.map_filter f xs | Some y \<Rightarrow> y # List.map_filter f xs)"
  by (simp add: List.map_filter_def split: option.splits)

lemma map_filter_Nil: "List.map_filter f [] = []"
  by (simp add: List.map_filter_def)

lemma download_calls_silent:
  assumes "list_all is_download_call calls"
  shows "failures calls = []" and "exported calls = []" and "warnings calls = []"
proof -
  have "\<forall>e \<in> set calls. failure_of e = None \<and> export_of e = None \<and> warning_of e = None"
  proof
    fix e assume "e \<in> set calls"
    with assms have "is_download_call e"
      by (simp add: list_all_iff)
    then show "failure_of e = None \<and> export_of e = None \<and> warning_of e = None"
      by (cases e) simp_all
  qed
  then show "failures calls = []" and "exported calls = []" and "warnings calls = []"
    by (simp_all add: failures_def exported_def warnings_def List.map_filter_def filter_empty_conv)
qed

lemma exported_export_output:
  "exported (export_output output) = (if trim output = [] then [] else parseEnvOutput output)"
proof -
  have "List.map_filter export_of (map (\<lambda>(key, val). ExportVariable key val) obj @ rest) =
        obj @ List.map_filter export_of rest" for obj rest
    by (induction obj) (auto simp: map_filter_Cons)
  then show ?thesis
    by (simp add: export_output_def exported_def Let_def map_filter_Cons map_filter_Nil)
qed

lemma failures_export_output: "failures (export_output output) = []"
proof -
  have "List.map_filter failure_of (map (\<lambda>(key, val). ExportVariable key val) obj @ rest) =
        List.map_filter failure_of rest" for obj rest
    by (induction obj) (auto simp: map_filter_Cons)
  then show ?thesis
    by (simp add: export_output_def failures_def Let_def map_filter_Cons map_filter_Nil)
qed

lemma warnings_export_output:
  "warnings (export_output output) =
     (if trim output = [] then [js ''sstart env produced no output''] else [])"
proof -
  have "List.map_filter warning_of (map (\<lambda>(key, val). ExportVariable key val) obj @ rest) =
        List.map_filter warning_of rest" for obj rest
    by (induction obj) (auto simp: map_filter_Cons)
  then show ?thesis
    by (simp add: export_output_def warnings_def Let_def map_filter_Cons map_filter_Nil)
qed

lemma decimal_digit: "d < 10 \<Longrightarrow> unat (0x30 + of_nat d :: code_unit) - 48 = d"
proof -
  assume d: "d < 10"
  have "unat (of_nat (48 + d) :: code_unit) = (48 + d) mod 2 ^ LENGTH(16)"
    by (simp only: unat_of_nat)
  also have "\<dots> = 48 + d"
    using d by simp
  finally have "unat (of_nat (48 + d) :: code_unit) = 48 + d" .
  moreover have "(0x30 + of_nat d :: code_unit) = of_nat (48 + d)"
    by simp
  ultimately show ?thesis
    by (simp only: diff_add_inverse)
qed

lemma decimal_value_nat_to_string: "decimal_value (nat_to_string n) = n"
proof (induction n rule: nat_to_string.induct)
  case (1 n)
  show ?case
  proof (cases "n < 10")
    case True
    then show ?thesis
      by (subst nat_to_string.simps) (simp add: decimal_value_def decimal_digit)
  next
    case False
    then have "decimal_value (nat_to_string (n div 10)) = n div 10"
      using 1 by simp
    moreover have "unat (0x30 + of_nat (n mod 10) :: code_unit) - 48 = n mod 10"
      by (rule decimal_digit) simp
    ultimately show ?thesis
      using False by (subst nat_to_string.simps) (simp add: decimal_value_def)
  qed
qed

lemma downloadFile_status:
  assumes "http_get w (protocol_of u) u = Response status loc content"
  shows "downloadFile w (Some u) destPath =
     (if is_redirect status then
        Option.bind (downloadFile w loc destPath)
          (\<lambda>(calls, settled). Some (HttpGet (protocol_of u) u # calls, settled))
      else if status \<noteq> 200 then
        Some ([HttpGet (protocol_of u) u], Inl (Error (status_message status)))
      else
        (case write_stream w destPath content of
           None \<Rightarrow> Some ([HttpGet (protocol_of u) u, WriteStream destPath content], Inr ())
         | Some e \<Rightarrow>
             Some ([HttpGet (protocol_of u) u, WriteStream destPath content, Unlink destPath],
                   Inl e)))"
  using assms by (subst downloadFile.simps) simp

lemma redirect_loop_never_settles:
  assumes "http_get w (protocol_of u) u = Response status (Some u) content" and "is_redirect status"
  shows "downloadFile w (Some u) destPath = None"
proof -
  have "downloadFile w' url d = Some y \<Longrightarrow> \<not> (w' = w \<and> url = Some u)" for w' url d y
  proof (induction rule: downloadFile.raw_induct [rotated, consumes 1])
    case (1 downloadFile w' url d y)
    then show ?case
      using assms by (fastforce split: option.splits simp: bind_eq_Some_conv)
  qed
  then show ?thesis
    by (cases "downloadFile w (Some u) destPath") blast+
qed

lemma downloadFile_chain:
  assumes "redirect_chain w u us"
    and "http_get w (protocol_of (last (u # us))) (last (u # us)) = Response 200 loc content"
    and "write_stream w destPath content = None"
  shows "downloadFile w (Some u) destPath =
     Some (map (\<lambda>x. HttpGet (protocol_of x) x) (u # us) @ [WriteStream destPath content], Inr ())"
  using assms
proof (induction us arbitrary: u)
  case Nil
  then show ?case
    by (simp add: downloadFile_status is_redirect_def)
next
  case (Cons u' us)
  from Cons.prems(1) obtain status b where
    r: "http_get w (protocol_of u) u = Response status (Some u') b" "is_redirect status"
    and c: "redirect_chain w u' us"
    by (auto split: get_result.splits)
  from Cons.prems have "downloadFile w (Some u') destPath =
     Some (map (\<lambda>x. HttpGet (protocol_of x) x) (u' # us) @ [WriteStream destPath content], Inr ())"
    using c by (intro Cons.IH) simp_all
  with r show ?case
    by (simp add: downloadFile_status)
qed

lemma downloadFile_first_call:
  assumes "downloadFile w (Some u) destPath = Some (calls, settled)"
  shows "\<exists>rest. calls = HttpGet (protocol_of u) u # rest"
  using assms
  by (subst (asm) downloadFile.simps)
     (auto split: get_result.splits if_splits option.splits simp: bind_eq_Some_conv)

lemma protocol_of_downloadUrl_for: "protocol_of (downloadUrl_for version p a) = Https"
  by (simp add: protocol_of_def downloadUrl_for_def startsWith_def js_def)

lemma run_reaches_export:
  assumes "sstart_env_prints w output"
  shows "\<exists>calls. run w = Some (calls @ export_output output) \<and>
           failures calls = [] \<and> exported calls = [] \<and> warnings calls = []"
proof -
  from assms obtain calls tarCode tarOut tarErr chmodCode chmodOut chmodErr errorOutput where
    config: "input w (js ''config'') \<noteq> []"
    and os: "platform w = js ''darwin'' \<or> platform w = js ''linux''"
    and download: "downloadFile w (Some (downloadUrl w)) (archivePath w) = Some (calls, Inr ())"
    and tar: "exec w (js ''tar'') [js ''-xzf'', archivePath w, js ''-C'', cwd w] = ExecExit tarCode tarOut tarErr"
    and unlink: "unlinkSync w (archivePath w) = None"
    and chmod: "exec w (js ''chmod'') [js ''+x'', binaryPath w] = ExecExit chmodCode chmodOut chmodErr"
    and writeConfig: "writeFileSync w (configPath w) (trim (input w (js ''config''))) = None"
    and env: "exec w (binaryPath w) [js ''env''] = ExecExit 0 output errorOutput"
    unfolding sstart_env_prints_def
    by (auto split: option.splits sum.splits exec_result.splits prod.splits)
  let ?pre = "[Info (js ''Detected platform: '' @ platformString (platform w) (arch w)),
               Info (js ''Downloading sstart '' @ normalizeVersion (versionInput w) @
                     js '' from: '' @ downloadUrl w)]"
  let ?mid = "[Info (js ''Extracting archive...''),
     Exec (js ''tar'') [js ''-xzf'', archivePath w, js ''-C'', cwd w],
     Unlink (archivePath w),
     Exec (js ''chmod'') [js ''+x'', binaryPath w],
     AddPath (cwd w),
     Info (js ''Added '' @ cwd w @ js '' to PATH''),
     WriteFile (configPath w) (trim (input w (js ''config''))),
     Info (js ''Created .sstart.yml configuration file''),
     Info (js ''Running sstart env...''),
     Exec (binaryPath w) [js ''env'']]"
  have inst: "run_installed w (trim (input w (js ''config''))) = ?mid @ export_output output"
    using tar unlink chmod writeConfig env by (simp add: run_installed_def)
  have r: "run w = Some ((?pre @ calls @ ?mid) @ export_output output)"
    using config os download inst by (auto simp: run_def getInput_def Let_def)
  have d: "failures calls = []" "exported calls = []" "warnings calls = []"
    using downloadFile_calls [OF download] by (rule download_calls_silent)+
  have "failures (?pre @ calls @ ?mid) = []" "exported (?pre @ calls @ ?mid) = []"
    "warnings (?pre @ calls @ ?mid) = []"
    using d by (simp_all add: failures_def exported_def warnings_def map_filter_append map_filter_Cons map_filter_Nil)
  with r show ?thesis
    by blast
qed

lemma observers_append:
  "failures (xs @ ys) = failures xs @ failures ys"
  "exported (xs @ ys) = exported xs @ exported ys"
  "warnings (xs @ ys) = warnings xs @ warnings ys"
  by (simp_all add: failures_def exported_def warnings_def map_filter_append)

section \<open>Version and download URL\<close>

text \<open>
  C2. Normalising a version that starts with \<^verbatim>\<open>v\<close> returns it unchanged, normalising
  any other version puts exactly one \<^verbatim>\<open>v\<close> in front of it, and normalising twice is
  the same as normalising once.
\<close>

theorem normalizeVersion_idempotent:
  "(startsWith s (js ''v'') \<longrightarrow> normalizeVersion s = s) \<and>
   (\<not> startsWith s (js ''v'') \<longrightarrow> normalizeVersion s = js ''v'' @ s) \<and>
   normalizeVersion (normalizeVersion s) = normalizeVersion s"
  by (simp add: normalizeVersion_def startsWith_def js_def)

theorem normalizeVersion_idempotent_witness:
  "startsWith (js ''v0.0.2'') (js ''v'') \<and> normalizeVersion (js ''v0.0.2'') = js ''v0.0.2'' \<and>
   \<not> startsWith (js ''0.0.2'') (js ''v'') \<and> normalizeVersion (js ''0.0.2'') = js ''v0.0.2'' \<and>
   normalizeVersion (normalizeVersion (js ''0.0.2'')) = normalizeVersion (js ''0.0.2'')"
  using normalizeVersion_idempotent [of "js ''v0.0.2''"] normalizeVersion_idempotent [of "js ''0.0.2''"]
  by (simp add: startsWith_def js_def cu_def)

text \<open>
  C3. For version \<^verbatim>\<open>0.0.2\<close> on \<^verbatim>\<open>darwin\<close> with architecture \<^verbatim>\<open>x64\<close> the download URL
  is the release path of \<^verbatim>\<open>v0.0.2\<close> with the archive \<^verbatim>\<open>sstart_Darwin_amd64.tar.gz\<close>.
\<close>

theorem download_url_darwin_x64:
  "downloadUrl_for (js ''0.0.2'') (js ''darwin'') (js ''x64'') =
     js ''https://github.com/dirathea/sstart/releases/download/v0.0.2/sstart_Darwin_amd64.tar.gz''"
  by (simp add: downloadUrl_for_def normalizeVersion_def platformString_def
      architecture_def startsWith_def js_def cu_def)

section \<open>The parser, line by line\<close>

text \<open>
  C6. The two-line input \<^verbatim>\<open>KEY1=value1\<close>, \<^verbatim>\<open>KEY2=value2\<close> parses to exactly these two
  entries. In any input, a line that is blank, or starts with \<^verbatim>\<open>#\<close>, or whose trimmed text
  is not an identifier followed by \<^verbatim>\<open>=\<close>, adds nothing: the result is what the loop
  produces from the other lines alone.
\<close>

theorem parse_example_and_skipped_lines:
  "parseEnvOutput (js ''KEY1=value1\<newline>KEY2=value2'') =
     [(js ''KEY1'', js ''value1''), (js ''KEY2'', js ''value2'')] \<and>
   (split_js output LF = before @ line # after \<and>
    (list_all is_white_space line \<or> startsWith line (js ''#'') \<or>
     \<not> (\<exists>k v. is_identifier k \<and> trim line = k @ js ''='' @ v)) \<longrightarrow>
    parseEnvOutput output = foldl parse_line [] (before @ after))"
proof
  show "parseEnvOutput (js ''KEY1=value1\<newline>KEY2=value2'') =
     [(js ''KEY1'', js ''value1''), (js ''KEY2'', js ''value2'')]"
    by (simp add: js_eval)
next
  show "split_js output LF = before @ line # after \<and>
    (list_all is_white_space line \<or> startsWith line (js ''#'') \<or>
     \<not> (\<exists>k v. is_identifier k \<and> trim line = k @ js ''='' @ v)) \<longrightarrow>
    parseEnvOutput output = foldl parse_line [] (before @ after)"
    by (auto simp: parseEnvOutput_def parse_line_skip)
qed

theorem parse_example_and_skipped_lines_witness:
  "split_js (js ''A=1\<newline># note\<newline>\<newline>not-a-valid-key\<newline>B=2'') LF =
     [js ''A=1'', js ''# note'', js ''''] @ js ''not-a-valid-key'' # [js ''B=2''] \<and>
   \<not> (\<exists>k v. is_identifier k \<and> trim (js ''not-a-valid-key'') = k @ js ''='' @ v) \<and>
   parseEnvOutput (js ''A=1\<newline># note\<newline>\<newline>not-a-valid-key\<newline>B=2'') =
     foldl parse_line [] ([js ''A=1'', js ''# note'', js ''''] @ [js ''B=2''])"
proof -
  have s: "split_js (js ''A=1\<newline># note\<newline>\<newline>not-a-valid-key\<newline>B=2'') LF =
     [js ''A=1'', js ''# note'', js ''''] @ js ''not-a-valid-key'' # [js ''B=2'']"
    by (simp add: js_eval)
  have "0x3D \<notin> set (trim (js ''not-a-valid-key''))"
    by (simp add: js_eval)
  then have n: "\<not> (\<exists>k v. is_identifier k \<and> trim (js ''not-a-valid-key'') = k @ js ''='' @ v)"
    by (auto simp: js_equals)
  from s n show ?thesis
    using parse_example_and_skipped_lines
      [of "js ''A=1\<newline># note\<newline>\<newline>not-a-valid-key\<newline>B=2''"
          "[js ''A=1'', js ''# note'', js '''']" "js ''not-a-valid-key''" "[js ''B=2'']"]
    by blast
qed

text \<open>
  C7, as the code has it. The line is trimmed before it is matched, so the value is taken
  from the trimmed line: for a line whose trimmed text is an identifier other than
  \<^verbatim>\<open>__proto__\<close>, then \<^verbatim>\<open>=\<close>, then a rest without line terminator, the value stored for
  the identifier is exactly that rest, which may be empty and may contain \<^verbatim>\<open>=\<close>.
\<close>

theorem stored_value_is_rest_of_trimmed_line:
  assumes "is_identifier k" and "k \<noteq> js ''__proto__''" and "no_line_terminator v"
    and "trim line = k @ js ''='' @ v"
  shows "map_of (parse_line envVars line) k = Some v"
  using assms by (simp add: parse_line_match map_of_set_property)

theorem stored_value_is_rest_of_trimmed_line_witness:
  "is_identifier (js ''URL'') \<and> js ''URL'' \<noteq> js ''__proto__'' \<and> no_line_terminator (js ''a=b=c'') \<and>
   trim (js ''  URL=a=b=c  '') = js ''URL'' @ js ''='' @ js ''a=b=c'' \<and>
   map_of (parse_line [] (js ''  URL=a=b=c  '')) (js ''URL'') = Some (js ''a=b=c'')"
proof -
  have h: "is_identifier (js ''URL'')" "js ''URL'' \<noteq> js ''__proto__''" "no_line_terminator (js ''a=b=c'')"
   "trim (js ''  URL=a=b=c  '') = js ''URL'' @ js ''='' @ js ''a=b=c''"
    by (simp_all add: js_eval)
  from h stored_value_is_rest_of_trimmed_line [OF h, of "[]"] show ?thesis
    by simp
qed

text \<open>
  C7 as stated fails: the line \<^verbatim>\<open>A=b\<close> followed by one space is \<^verbatim>\<open>A\<close>, \<^verbatim>\<open>=\<close> and the rest
  \<^verbatim>\<open>b\<close> with the space, but the value stored for \<^verbatim>\<open>A\<close> is not that rest.
\<close>

theorem trailing_space_not_stored:
  "js ''A=b '' = js ''A'' @ js ''='' @ js ''b '' \<and>
   parseEnvOutput (js ''A=b '') = [(js ''A'', js ''b'')] \<and>
   map_of (parseEnvOutput (js ''A=b '')) (js ''A'') \<noteq> Some (js ''b '')"
  by (simp add: js_eval)

text \<open>
  C8 at the input with the two lines \<^verbatim>\<open>__proto__=a\<close> and \<^verbatim>\<open>__proto__=b\<close>: both lines
  match, and the result has no entry for the key.
\<close>

theorem proto_key_not_stored:
  "parseEnvOutput (js ''__proto__=a\<newline>__proto__=b'') = []"
  by (simp add: js_eval)

section \<open>The download\<close>

text \<open>
  C4, as the code has it. The only status the download accepts is 200: then it streams
  the body to the file and fails only if that write fails. On a redirect status (301, 302,
  307, 308) it does not fail on the response but settles as the download of the
  \<^verbatim>\<open>Location\<close> value settles. On every other status, the other 2xx codes included, it
  is rejected with the message \<^verbatim>\<open>Download failed with status\<close> followed by the decimal
  text of the status code, after the one request and nothing else.
\<close>

theorem download_status_handling:
  assumes "http_get w (protocol_of u) u = Response status loc content"
  shows "(status = 200 \<longrightarrow>
            downloadFile w (Some u) destPath =
              (case write_stream w destPath content of
                 None \<Rightarrow> Some ([HttpGet (protocol_of u) u, WriteStream destPath content], Inr ())
               | Some e \<Rightarrow>
                   Some ([HttpGet (protocol_of u) u, WriteStream destPath content, Unlink destPath],
                         Inl e))) \<and>
         (is_redirect status \<longrightarrow>
            downloadFile w (Some u) destPath =
              Option.bind (downloadFile w loc destPath)
                (\<lambda>(calls, settled). Some (HttpGet (protocol_of u) u # calls, settled))) \<and>
         (status \<noteq> 200 \<and> \<not> is_redirect status \<longrightarrow>
            downloadFile w (Some u) destPath =
              Some ([HttpGet (protocol_of u) u],
                    Inl (Error (js ''Download failed with status '' @ nat_to_string status))) \<and>
            decimal_value (nat_to_string status) = status)"
  using assms
  by (simp add: downloadFile_status status_message_def decimal_value_nat_to_string is_redirect_def)

theorem download_status_handling_witness:
  "http_get runner (protocol_of (js ''http://mirror.example/b'')) (js ''http://mirror.example/b'') =
     Response 200 None (js ''ARCHIVE'') \<and>
   downloadFile runner (Some (js ''http://mirror.example/b'')) (js ''/work/a.tar.gz'') =
     Some ([HttpGet Http (js ''http://mirror.example/b''),
            WriteStream (js ''/work/a.tar.gz'') (js ''ARCHIVE'')], Inr ()) \<and>
   http_get runner (protocol_of (js ''https://objects.example/a'')) (js ''https://objects.example/a'') =
     Response 307 (Some (js ''http://mirror.example/b'')) (js ''Temporary Redirect'') \<and>
   is_redirect 307 \<and>
   downloadFile runner (Some (js ''https://objects.example/a'')) (js ''/work/a.tar.gz'') =
     Some ([HttpGet Https (js ''https://objects.example/a''),
            HttpGet Http (js ''http://mirror.example/b''),
            WriteStream (js ''/work/a.tar.gz'') (js ''ARCHIVE'')], Inr ()) \<and>
   http_get (runner\<lparr>http_get := (\<lambda>p url. Response 404 None (js ''Not Found''))\<rparr>)
       (protocol_of (js ''https://host.example/a'')) (js ''https://host.example/a'') =
     Response 404 None (js ''Not Found'') \<and>
   404 \<noteq> (200::nat) \<and> \<not> is_redirect 404 \<and>
   downloadFile (runner\<lparr>http_get := (\<lambda>p url. Response 404 None (js ''Not Found''))\<rparr>)
       (Some (js ''https://host.example/a'')) (js ''/work/a.tar.gz'') =
     Some ([HttpGet Https (js ''https://host.example/a'')],
           Inl (Error (js ''Download failed with status 404'')))"
proof -
  have a: "http_get runner (protocol_of (js ''http://mirror.example/b'')) (js ''http://mirror.example/b'') =
     Response 200 None (js ''ARCHIVE'')"
    by code_simp
  have b: "http_get runner (protocol_of (js ''https://objects.example/a'')) (js ''https://objects.example/a'') =
     Response 307 (Some (js ''http://mirror.example/b'')) (js ''Temporary Redirect'')"
    by code_simp
  have c: "http_get (runner\<lparr>http_get := (\<lambda>p url. Response 404 None (js ''Not Found''))\<rparr>)
       (protocol_of (js ''https://host.example/a'')) (js ''https://host.example/a'') =
     Response 404 None (js ''Not Found'')"
    by simp
  have e: "write_stream runner (js ''/work/a.tar.gz'') (js ''ARCHIVE'') = None"
    "protocol_of (js ''http://mirror.example/b'') = Http"
    "protocol_of (js ''https://objects.example/a'') = Https"
    "protocol_of (js ''https://host.example/a'') = Https"
    "js ''Download failed with status '' @ nat_to_string 404 = js ''Download failed with status 404''"
    "is_redirect 307" "\<not> is_redirect 404"
    by code_simp+
  have A: "downloadFile runner (Some (js ''http://mirror.example/b'')) (js ''/work/a.tar.gz'') =
     Some ([HttpGet Http (js ''http://mirror.example/b''),
            WriteStream (js ''/work/a.tar.gz'') (js ''ARCHIVE'')], Inr ())"
    using download_status_handling [OF a, of "js ''/work/a.tar.gz''"] e by simp
  have B: "downloadFile runner (Some (js ''https://objects.example/a'')) (js ''/work/a.tar.gz'') =
     Some ([HttpGet Https (js ''https://objects.example/a''),
            HttpGet Http (js ''http://mirror.example/b''),
            WriteStream (js ''/work/a.tar.gz'') (js ''ARCHIVE'')], Inr ())"
    using download_status_handling [OF b, of "js ''/work/a.tar.gz''"] e A by simp
  have C: "downloadFile (runner\<lparr>http_get := (\<lambda>p url. Response 404 None (js ''Not Found''))\<rparr>)
       (Some (js ''https://host.example/a'')) (js ''/work/a.tar.gz'') =
     Some ([HttpGet Https (js ''https://host.example/a'')],
           Inl (Error (js ''Download failed with status 404'')))"
    using download_status_handling [OF c, of "js ''/work/a.tar.gz''"] e by simp
  from a b c e A B C show ?thesis
    by simp
qed

text \<open>
  C4 as stated fails at status 204, a 2xx success status: the download is rejected with
  the status error.
\<close>

theorem status_204_fails:
  "http_get (runner\<lparr>http_get := (\<lambda>p url. Response 204 None [])\<rparr>)
       (protocol_of (js ''https://host.example/a.tar.gz'')) (js ''https://host.example/a.tar.gz'') =
     Response 204 None [] \<and>
   downloadFile (runner\<lparr>http_get := (\<lambda>p url. Response 204 None [])\<rparr>)
       (Some (js ''https://host.example/a.tar.gz'')) (js ''/work/a.tar.gz'') =
     Some ([HttpGet Https (js ''https://host.example/a.tar.gz'')],
           Inl (Error (js ''Download failed with status 204'')))"
  by code_simp

text \<open>
  C5. After a redirect response (301, 302, 307, 308) the download continues as the download
  of the value of the \<^verbatim>\<open>Location\<close> header, after the request already made, whatever came
  before and whatever follows. Through a chain of redirects of any length that ends at a
  response with status 200, the requests are issued in the order of the chain, and the one
  body streamed to the destination file is the body of that last response; no body of a
  redirect response is written.
\<close>

theorem redirects_followed_to_final_body:
  "(http_get w (protocol_of u) u = Response status l b \<and> is_redirect status \<longrightarrow>
      downloadFile w (Some u) destPath =
        Option.bind (downloadFile w l destPath)
          (\<lambda>(calls, settled). Some (HttpGet (protocol_of u) u # calls, settled))) \<and>
   (redirect_chain w u us \<and>
    http_get w (protocol_of (last (u # us))) (last (u # us)) = Response 200 loc content \<and>
    write_stream w destPath content = None \<longrightarrow>
      downloadFile w (Some u) destPath =
        Some (map (\<lambda>x. HttpGet (protocol_of x) x) (u # us) @ [WriteStream destPath content],
              Inr ()))"
proof (intro conjI impI)
  assume "http_get w (protocol_of u) u = Response status l b \<and> is_redirect status"
  then show "downloadFile w (Some u) destPath =
        Option.bind (downloadFile w l destPath)
          (\<lambda>(calls, settled). Some (HttpGet (protocol_of u) u # calls, settled))"
    by (simp add: downloadFile_status)
next
  assume "redirect_chain w u us \<and>
    http_get w (protocol_of (last (u # us))) (last (u # us)) = Response 200 loc content \<and>
    write_stream w destPath content = None"
  then show "downloadFile w (Some u) destPath =
        Some (map (\<lambda>x. HttpGet (protocol_of x) x) (u # us) @ [WriteStream destPath content],
              Inr ())"
    using downloadFile_chain by blast
qed

theorem redirects_followed_to_final_body_witness:
  "http_get runner (protocol_of (js ''https://objects.example/a'')) (js ''https://objects.example/a'') =
     Response 307 (Some (js ''http://mirror.example/b'')) (js ''Temporary Redirect'') \<and>
   is_redirect 307 \<and>
   downloadFile runner (Some (js ''https://objects.example/a'')) (js ''/work/a.tar.gz'') =
     Option.bind (downloadFile runner (Some (js ''http://mirror.example/b'')) (js ''/work/a.tar.gz''))
       (\<lambda>(calls, settled).
          Some (HttpGet (protocol_of (js ''https://objects.example/a''))
                  (js ''https://objects.example/a'') # calls, settled)) \<and>
   redirect_chain runner (downloadUrl runner)
     [js ''https://objects.example/a'', js ''http://mirror.example/b''] \<and>
   http_get runner (protocol_of (js ''http://mirror.example/b'')) (js ''http://mirror.example/b'') =
     Response 200 None (js ''ARCHIVE'') \<and>
   write_stream runner (js ''/work/a.tar.gz'') (js ''ARCHIVE'') = None \<and>
   downloadFile runner (Some (downloadUrl runner)) (js ''/work/a.tar.gz'') =
     Some ([HttpGet Https (downloadUrl runner),
            HttpGet Https (js ''https://objects.example/a''),
            HttpGet Http (js ''http://mirror.example/b''),
            WriteStream (js ''/work/a.tar.gz'') (js ''ARCHIVE'')], Inr ())"
proof -
  have r: "http_get runner (protocol_of (js ''https://objects.example/a''))
       (js ''https://objects.example/a'') =
     Response 307 (Some (js ''http://mirror.example/b'')) (js ''Temporary Redirect'')"
    "is_redirect 307"
    by code_simp+
  have a: "redirect_chain runner (downloadUrl runner)
     [js ''https://objects.example/a'', js ''http://mirror.example/b'']"
    by code_simp
  have b: "http_get runner
      (protocol_of (last (downloadUrl runner # [js ''https://objects.example/a'', js ''http://mirror.example/b''])))
      (last (downloadUrl runner # [js ''https://objects.example/a'', js ''http://mirror.example/b''])) =
     Response 200 None (js ''ARCHIVE'')"
    by code_simp
  have c: "write_stream runner (js ''/work/a.tar.gz'') (js ''ARCHIVE'') = None"
    by (simp add: runner_def)
  have p: "protocol_of (downloadUrl runner) = Https"
    "protocol_of (js ''https://objects.example/a'') = Https"
    "protocol_of (js ''http://mirror.example/b'') = Http"
    by code_simp+
  have step: "downloadFile runner (Some (js ''https://objects.example/a'')) (js ''/work/a.tar.gz'') =
     Option.bind (downloadFile runner (Some (js ''http://mirror.example/b'')) (js ''/work/a.tar.gz''))
       (\<lambda>(calls, settled).
          Some (HttpGet (protocol_of (js ''https://objects.example/a''))
                  (js ''https://objects.example/a'') # calls, settled))"
    using redirects_followed_to_final_body
      [of runner "js ''https://objects.example/a''" 307 "Some (js ''http://mirror.example/b'')"
          "js ''Temporary Redirect''" "js ''/work/a.tar.gz''" "[]" None "[]"] r
    by blast
  have chain: "downloadFile runner (Some (downloadUrl runner)) (js ''/work/a.tar.gz'') =
     Some (map (\<lambda>x. HttpGet (protocol_of x) x)
             (downloadUrl runner # [js ''https://objects.example/a'', js ''http://mirror.example/b'']) @
           [WriteStream (js ''/work/a.tar.gz'') (js ''ARCHIVE'')], Inr ())"
    using redirects_followed_to_final_body
      [of runner "downloadUrl runner" 0 None "[]" "js ''/work/a.tar.gz''"
          "[js ''https://objects.example/a'', js ''http://mirror.example/b'']" None "js ''ARCHIVE''"]
      a b c
    by blast
  from r a b c p step chain show ?thesis
    by simp
qed

section \<open>The run\<close>

text \<open>
  C1, as the code has it. The required \<^verbatim>\<open>config\<close> input is read before the platform is
  looked at: without it the run fails with the missing-input message, and the only call
  made is \<^verbatim>\<open>setFailed\<close>. With it, on every platform other than \<^verbatim>\<open>darwin\<close> and
  \<^verbatim>\<open>linux\<close> the run fails with the unsupported-platform message, and the only call made
  is \<^verbatim>\<open>setFailed\<close>: no download, no file written, no subprocess. On \<^verbatim>\<open>darwin\<close> and
  \<^verbatim>\<open>linux\<close> the check succeeds and the run goes on to the download of the download URL
  to the archive path: it never fails as unsupported; it returns exactly when that
  download settles; and when the download settles, the run has made the two log calls,
  then the calls of the download, the first of which is the request for the download URL,
  then what follows the download.
\<close>

theorem platform_check:
  "(input w (js ''config'') = [] \<longrightarrow>
      run w = Some [SetFailed (js ''Input required and not supplied: config'')]) \<and>
   (input w (js ''config'') \<noteq> [] \<and> platform w \<noteq> js ''darwin'' \<and> platform w \<noteq> js ''linux'' \<longrightarrow>
      run w = Some [SetFailed (unsupported_message (platform w))]) \<and>
   (input w (js ''config'') \<noteq> [] \<and> (platform w = js ''darwin'' \<or> platform w = js ''linux'') \<longrightarrow>
      run w \<noteq> Some [SetFailed (unsupported_message (platform w))] \<and>
      (run w = None \<longleftrightarrow> downloadFile w (Some (downloadUrl w)) (archivePath w) = None) \<and>
      (\<forall>dcalls settled.
         downloadFile w (Some (downloadUrl w)) (archivePath w) = Some (dcalls, settled) \<longrightarrow>
         (\<exists>rest. dcalls = HttpGet Https (downloadUrl w) # rest) \<and>
         run w =
           Some (Info (js ''Detected platform: '' @ platformString (platform w) (arch w)) #
                 Info (js ''Downloading sstart '' @ normalizeVersion (versionInput w) @
                       js '' from: '' @ downloadUrl w) #
                 dcalls @
                 (case settled of
                    Inl e \<Rightarrow> [SetFailed (js ''Could not download sstart binary: '' @ message e)]
                  | Inr u \<Rightarrow> run_installed w (trim (input w (js ''config'')))))) \<and>
      (\<forall>calls. run w = Some calls \<longrightarrow>
         (\<exists>rest. calls =
            Info (js ''Detected platform: '' @ platformString (platform w) (arch w)) #
            Info (js ''Downloading sstart '' @ normalizeVersion (versionInput w) @
                  js '' from: '' @ downloadUrl w) #
            HttpGet Https (downloadUrl w) # rest)))"
proof (intro conjI impI)
  assume "input w (js ''config'') = []"
  then show "run w = Some [SetFailed (js ''Input required and not supplied: config'')]"
    by (simp add: run_def getInput_def js_def)
next
  assume "input w (js ''config'') \<noteq> [] \<and> platform w \<noteq> js ''darwin'' \<and> platform w \<noteq> js ''linux''"
  then show "run w = Some [SetFailed (unsupported_message (platform w))]"
    by (simp add: run_def getInput_def)
next
  assume a: "input w (js ''config'') \<noteq> [] \<and> (platform w = js ''darwin'' \<or> platform w = js ''linux'')"
  let ?log1 = "Info (js ''Detected platform: '' @ platformString (platform w) (arch w))"
  let ?log2 = "Info (js ''Downloading sstart '' @ normalizeVersion (versionInput w) @
                    js '' from: '' @ downloadUrl w)"
  have eq: "run w =
      Option.bind (downloadFile w (Some (downloadUrl w)) (archivePath w))
        (\<lambda>(calls, settled).
           Some ([?log1, ?log2] @ calls @
                 (case settled of
                    Inl e \<Rightarrow> [SetFailed (js ''Could not download sstart binary: '' @ message e)]
                  | Inr u \<Rightarrow> run_installed w (trim (input w (js ''config''))))))"
    using a by (auto simp: run_def getInput_def)
  show none: "run w = None \<longleftrightarrow> downloadFile w (Some (downloadUrl w)) (archivePath w) = None"
    unfolding eq by (cases "downloadFile w (Some (downloadUrl w)) (archivePath w)") auto
  have settles: "(\<exists>rest. dcalls = HttpGet Https (downloadUrl w) # rest) \<and>
         run w = Some (?log1 # ?log2 # dcalls @
                 (case settled of
                    Inl e \<Rightarrow> [SetFailed (js ''Could not download sstart binary: '' @ message e)]
                  | Inr u \<Rightarrow> run_installed w (trim (input w (js ''config'')))))"
    if d: "downloadFile w (Some (downloadUrl w)) (archivePath w) = Some (dcalls, settled)"
    for dcalls settled
  proof
    from downloadFile_first_call [OF d]
    show "\<exists>rest. dcalls = HttpGet Https (downloadUrl w) # rest"
      by (simp add: downloadUrl_def protocol_of_downloadUrl_for)
    show "run w = Some (?log1 # ?log2 # dcalls @
                 (case settled of
                    Inl e \<Rightarrow> [SetFailed (js ''Could not download sstart binary: '' @ message e)]
                  | Inr u \<Rightarrow> run_installed w (trim (input w (js ''config'')))))"
      unfolding eq using d by simp
  qed
  then show "\<forall>dcalls settled.
         downloadFile w (Some (downloadUrl w)) (archivePath w) = Some (dcalls, settled) \<longrightarrow>
         (\<exists>rest. dcalls = HttpGet Https (downloadUrl w) # rest) \<and>
         run w =
           Some (?log1 # ?log2 # dcalls @
                 (case settled of
                    Inl e \<Rightarrow> [SetFailed (js ''Could not download sstart binary: '' @ message e)]
                  | Inr u \<Rightarrow> run_installed w (trim (input w (js ''config'')))))"
    by blast
  have proceeds: "\<exists>rest. calls = ?log1 # ?log2 # HttpGet Https (downloadUrl w) # rest"
    if "run w = Some calls" for calls
  proof -
    from that none obtain dcalls settled where
      d: "downloadFile w (Some (downloadUrl w)) (archivePath w) = Some (dcalls, settled)"
      by (cases "downloadFile w (Some (downloadUrl w)) (archivePath w)") auto
    from settles [OF d] that show ?thesis
      by auto
  qed
  then show "\<forall>calls. run w = Some calls \<longrightarrow>
         (\<exists>rest. calls = ?log1 # ?log2 # HttpGet Https (downloadUrl w) # rest)"
    by blast
  from proceeds show "run w \<noteq> Some [SetFailed (unsupported_message (platform w))]"
    by fastforce
qed

theorem platform_check_witness:
  "input (runner\<lparr>input := (\<lambda>name. [])\<rparr>) (js ''config'') = [] \<and>
   run (runner\<lparr>input := (\<lambda>name. [])\<rparr>) =
     Some [SetFailed (js ''Input required and not supplied: config'')] \<and>
   input (runner\<lparr>platform := js ''win32''\<rparr>) (js ''config'') \<noteq> [] \<and>
   platform (runner\<lparr>platform := js ''win32''\<rparr>) \<noteq> js ''darwin'' \<and>
   platform (runner\<lparr>platform := js ''win32''\<rparr>) \<noteq> js ''linux'' \<and>
   run (runner\<lparr>platform := js ''win32''\<rparr>) =
     Some [SetFailed (unsupported_message (js ''win32''))] \<and>
   input runner (js ''config'') \<noteq> [] \<and> platform runner = js ''linux'' \<and>
   downloadFile runner (Some (downloadUrl runner)) (archivePath runner) =
     Some ([HttpGet Https (downloadUrl runner),
            HttpGet Https (js ''https://objects.example/a''),
            HttpGet Http (js ''http://mirror.example/b''),
            WriteStream (archivePath runner) (js ''ARCHIVE'')], Inr ()) \<and>
   run runner =
     Some (Info (js ''Detected platform: '' @ platformString (platform runner) (arch runner)) #
           Info (js ''Downloading sstart '' @ normalizeVersion (versionInput runner) @
                 js '' from: '' @ downloadUrl runner) #
           [HttpGet Https (downloadUrl runner),
            HttpGet Https (js ''https://objects.example/a''),
            HttpGet Http (js ''http://mirror.example/b''),
            WriteStream (archivePath runner) (js ''ARCHIVE'')] @
           run_installed runner (trim (input runner (js ''config'')))) \<and>
   input (runner\<lparr>http_get := (\<lambda>p url. Response 302 (Some url) [])\<rparr>) (js ''config'') \<noteq> [] \<and>
   platform (runner\<lparr>http_get := (\<lambda>p url. Response 302 (Some url) [])\<rparr>) = js ''linux'' \<and>
   downloadFile (runner\<lparr>http_get := (\<lambda>p url. Response 302 (Some url) [])\<rparr>)
     (Some (downloadUrl (runner\<lparr>http_get := (\<lambda>p url. Response 302 (Some url) [])\<rparr>)))
     (archivePath (runner\<lparr>http_get := (\<lambda>p url. Response 302 (Some url) [])\<rparr>)) = None \<and>
   run (runner\<lparr>http_get := (\<lambda>p url. Response 302 (Some url) [])\<rparr>) = None"
proof -
  let ?loop = "runner\<lparr>http_get := (\<lambda>p url. Response 302 (Some url) [])\<rparr>"
  have h1: "input (runner\<lparr>input := (\<lambda>name. [])\<rparr>) (js ''config'') = []"
    by (simp add: runner_def)
  have h2: "input (runner\<lparr>platform := js ''win32''\<rparr>) (js ''config'') \<noteq> [] \<and>
      platform (runner\<lparr>platform := js ''win32''\<rparr>) \<noteq> js ''darwin'' \<and>
      platform (runner\<lparr>platform := js ''win32''\<rparr>) \<noteq> js ''linux''"
    by code_simp
  have p2: "platform (runner\<lparr>platform := js ''win32''\<rparr>) = js ''win32''"
    by simp
  have h3: "input runner (js ''config'') \<noteq> [] \<and> platform runner = js ''linux''"
    by code_simp
  have d: "downloadFile runner (Some (downloadUrl runner)) (archivePath runner) =
     Some ([HttpGet Https (downloadUrl runner),
            HttpGet Https (js ''https://objects.example/a''),
            HttpGet Http (js ''http://mirror.example/b''),
            WriteStream (archivePath runner) (js ''ARCHIVE'')], Inr ())"
    by code_simp
  have h4: "input ?loop (js ''config'') \<noteq> [] \<and> platform ?loop = js ''linux''"
    by code_simp
  have "is_redirect 302"
    by (simp add: is_redirect_def)
  then have l: "downloadFile ?loop (Some (downloadUrl ?loop)) (archivePath ?loop) = None"
    by (intro redirect_loop_never_settles [where status = 302 and content = "[]"]) simp_all
  show ?thesis
    using h1 h2 p2 h3 d h4 l
      platform_check [of "runner\<lparr>input := (\<lambda>name. [])\<rparr>"]
      platform_check [of "runner\<lparr>platform := js ''win32''\<rparr>"]
      platform_check [of runner]
      platform_check [of ?loop]
    by (simp only: simp_thms) (simp del: downloadFile.simps)
qed

text \<open>
  C1 as stated fails on \<^verbatim>\<open>win32\<close> when the workflow gives no \<^verbatim>\<open>config\<close>: the failure is
  the missing input, not the unsupported platform.
\<close>

theorem missing_config_precedes_platform_check:
  "platform (runner\<lparr>platform := js ''win32'', input := (\<lambda>name. [])\<rparr>) = js ''win32'' \<and>
   js ''win32'' \<noteq> js ''darwin'' \<and> js ''win32'' \<noteq> js ''linux'' \<and>
   run (runner\<lparr>platform := js ''win32'', input := (\<lambda>name. [])\<rparr>) =
     Some [SetFailed (js ''Input required and not supplied: config'')] \<and>
   js ''Input required and not supplied: config'' \<noteq> unsupported_message (js ''win32'')"
  by code_simp

text \<open>
  C9. When every step before succeeds and \<^verbatim>\<open>sstart env\<close> exits with 0 after printing
  nothing but whitespace (or nothing at all), the run completes, its last call is the
  warning, it exports no variable and it reports no failure.
\<close>

theorem empty_output_is_warning:
  assumes "sstart_env_prints w output" and "list_all is_white_space output"
  shows "\<exists>calls. run w = Some calls \<and>
           last calls = Warning (js ''sstart env produced no output'') \<and>
           warnings calls = [js ''sstart env produced no output''] \<and>
           exported calls = [] \<and> failures calls = []"
proof -
  from assms(2) have blank: "trim output = []"
    by (rule trim_blank)
  from run_reaches_export [OF assms(1)] obtain calls where
    "run w = Some (calls @ export_output output)"
    "failures calls = []" "exported calls = []" "warnings calls = []"
    by blast
  moreover have "last (calls @ export_output output) = Warning (js ''sstart env produced no output'')"
    using blank by (simp add: export_output_def)
  ultimately show ?thesis
    using blank
    by (simp add: observers_append exported_export_output failures_export_output
        warnings_export_output)
qed

theorem empty_output_is_warning_witness:
  "sstart_env_prints (runner\<lparr>exec := (\<lambda>cmd args. ExecExit 0 (js ''  \<newline>'') [])\<rparr>) (js ''  \<newline>'') \<and>
   list_all is_white_space (js ''  \<newline>'') \<and>
   (\<exists>calls. run (runner\<lparr>exec := (\<lambda>cmd args. ExecExit 0 (js ''  \<newline>'') [])\<rparr>) = Some calls \<and>
      last calls = Warning (js ''sstart env produced no output'') \<and>
      warnings calls = [js ''sstart env produced no output''] \<and>
      exported calls = [] \<and> failures calls = [])"
proof -
  have a: "sstart_env_prints (runner\<lparr>exec := (\<lambda>cmd args. ExecExit 0 (js ''  \<newline>'') [])\<rparr>) (js ''  \<newline>'')"
    by code_simp
  have b: "list_all is_white_space (js ''  \<newline>'')"
    by code_simp
  from empty_output_is_warning [OF a b] a b show ?thesis
    by simp
qed

text \<open>
  C10. Whatever the output text, the parser returns a well-formed map; and whatever
  \<^verbatim>\<open>sstart env\<close> prints when it exits with 0 after the steps before it succeeded, the
  run completes without a failure, exporting exactly the entries the parser returns (none
  for a blank output).
\<close>

theorem parser_never_fails:
  "well_formed (parseEnvOutput output) \<and>
   (sstart_env_prints w output \<longrightarrow>
      (\<exists>calls. run w = Some calls \<and> failures calls = [] \<and>
         exported calls = (if trim output = [] then [] else parseEnvOutput output)))"
proof (intro conjI impI)
  show "well_formed (parseEnvOutput output)"
    by (rule well_formed_parseEnvOutput)
next
  assume "sstart_env_prints w output"
  from run_reaches_export [OF this] obtain calls where
    "run w = Some (calls @ export_output output)"
    "failures calls = []" "exported calls = []" "warnings calls = []"
    by blast
  then show "\<exists>calls. run w = Some calls \<and> failures calls = [] \<and>
         exported calls = (if trim output = [] then [] else parseEnvOutput output)"
    by (simp add: observers_append exported_export_output failures_export_output)
qed

theorem parser_never_fails_witness:
  "sstart_env_prints runner (js ''API_KEY=abc\<newline>DB_URL=pg://h/db?x=1\<newline>'') \<and>
   (\<exists>calls. run runner = Some calls \<and> failures calls = [] \<and>
      exported calls = [(js ''API_KEY'', js ''abc''), (js ''DB_URL'', js ''pg://h/db?x=1'')])"
proof -
  have a: "sstart_env_prints runner (js ''API_KEY=abc\<newline>DB_URL=pg://h/db?x=1\<newline>'')"
    by code_simp
  have b: "(if trim (js ''API_KEY=abc\<newline>DB_URL=pg://h/db?x=1\<newline>'') = [] then []
            else parseEnvOutput (js ''API_KEY=abc\<newline>DB_URL=pg://h/db?x=1\<newline>'')) =
           [(js ''API_KEY'', js ''abc''), (js ''DB_URL'', js ''pg://h/db?x=1'')]"
    by code_simp
  from parser_never_fails [of "js ''API_KEY=abc\<newline>DB_URL=pg://h/db?x=1\<newline>''" runner] a b
  show ?thesis
    by simp
qed


end
